theory Spec2Isabelle
  imports Complex_Main
begin

section \<open>The JavaScript values and built-ins the player code relies on\<close>

text \<open>
  The player is TypeScript running in a browser. Only the built-ins that the modelled
  functions call are embedded, each with the behaviour ECMAScript gives it.

  A \<open>number\<close> is either a finite value or \<open>NaN\<close>. Finite values are kept as exact
  rationals: every comparison the code makes (\<open>=== 0\<close>, \<open>> 1\<close>) has the same outcome
  on the exact value and on the double, and all integers below \<open>2^53\<close> are exact in both.
  The rounding of a non-integer quotient to the nearest double is not represented.
  This type carries the durations. The numbers of \<open>timeStringToSeconds\<close>, where the
  rounding decides the result, are doubles with their rounding (below).

  A string is a list of 8-bit characters (its UTF-8 bytes). Every character the code looks
  for (the digits, \<open>h\<close>, \<open>m\<close>, \<open>s\<close>, \<open>/\<close> and the suffix \<open>.m3u8\<close>) is ASCII, and an ASCII
  byte never occurs inside the encoding of another character, so a prefix, a suffix or the
  first \<open>/\<close> is found at the same place as in the UTF-16 string of the browser.
\<close>

datatype number = Num rat | NaN

text \<open>A \<open>TypeError\<close> is the only exception the modelled code can raise.\<close>

datatype error = TypeError

text \<open>
  Truthiness of a \<open>string | null\<close> value, as tested by \<open>x ? a : b\<close> and \<open>x && y\<close>:
  \<open>null\<close> and the empty string are falsy, every other string is truthy.
\<close>

definition truthy :: "string option \<Rightarrow> bool" where
  "truthy s = (case s of None \<Rightarrow> False | Some v \<Rightarrow> v \<noteq> [])"

text \<open>\<open>Number(b)\<close> for \<open>b: boolean | null\<close>: \<open>true\<close> is 1, \<open>false\<close> and \<open>null\<close> are 0.\<close>

definition Number_of :: "bool option \<Rightarrow> int" where
  "Number_of b = (case b of Some True \<Rightarrow> 1 | Some False \<Rightarrow> 0 | None \<Rightarrow> 0)"

text \<open>\<open>String.prototype.endsWith\<close>.\<close>

definition endsWith :: "string \<Rightarrow> string \<Rightarrow> bool" where
  "endsWith s suf = (length suf \<le> length s \<and> drop (length s - length suf) s = suf)"

text \<open>The regular-expression class \<open>\d\<close> (without the unicode flag): the ten ASCII digits.\<close>

definition is_digit :: "char \<Rightarrow> bool" where
  "is_digit c = (c \<in> set ''0123456789'')"

definition digit_val :: "char \<Rightarrow> nat" where
  "digit_val c = of_char c - 48"

text \<open>The integer that a string of decimal digits spells.\<close>

definition decimal_value :: "string \<Rightarrow> nat" where
  "decimal_value ds = foldl (\<lambda>n c. 10 * n + digit_val c) 0 ds"

subsection \<open>Doubles that hold non-negative integers\<close>

text \<open>
  \<open>timeStringToSeconds\<close> computes with \<open>parseInt\<close>, \<open>*\<close> and \<open>+\<close> on numbers, which are
  IEEE 754 doubles. All values it meets are non-negative integers or \<open>Infinity\<close>.
  \<open>to_double\<close> is the rounding of an integer to the nearest double, ties to the even
  significand: an integer below \<open>2^53 = 9007199254740992\<close> is a double already; a larger
  one keeps its 53 leading bits, rounded; a result of \<open>2^1024\<close> or more is \<open>Infinity\<close>.
\<close>

datatype double = Finite nat | Infinity

fun bit_length :: "nat \<Rightarrow> nat" where
  "bit_length n = (if n = 0 then 0 else Suc (bit_length (n div 2)))"

declare bit_length.simps [simp del]

definition to_double :: "nat \<Rightarrow> double" where
  "to_double n =
     (if n < 9007199254740992 then Finite n
      else let e = bit_length n - 53;
               q = n div 2 ^ e;
               r = n mod 2 ^ e;
               q' = (if 2 ^ e < 2 * r \<or> (2 * r = 2 ^ e \<and> odd q) then q + 1 else q)
           in if 2 ^ 1024 \<le> q' * 2 ^ e then Infinity else Finite (q' * 2 ^ e))"

text \<open>
  \<open>parseInt\<close> on a string of decimal digits (the only strings the code passes to it): the
  double nearest to the integer the digits spell. (ECMAScript lets an engine replace the
  digits after the 20th significant one by zeros before rounding; this model rounds the
  exact integer. Below \<open>2^53\<close>, at most 16 digits, there is no difference.)
\<close>

definition parseInt :: "string \<Rightarrow> double" where
  "parseInt ds = to_double (decimal_value ds)"

text \<open>\<open>x * 60\<close> and \<open>x + y\<close> on such doubles: the exact result, rounded.\<close>

fun times60 :: "double \<Rightarrow> double" where
  "times60 (Finite a) = to_double (a * 60)"
| "times60 Infinity = Infinity"

fun plus_double :: "double \<Rightarrow> double \<Rightarrow> double" where
  "plus_double (Finite a) (Finite b) = to_double (a + b)"
| "plus_double _ _ = Infinity"

text \<open>The decimal rendering of a non-negative integer in a template literal.\<close>

fun toString :: "nat \<Rightarrow> string" where
  "toString n =
     (if n < 10 then [''0123456789'' ! n]
      else toString (n div 10) @ [''0123456789'' ! (n mod 10)])"

declare toString.simps [simp del]

text \<open>
  \<open>Array.prototype.sort(cmp)\<close> is stable (ECMAScript 2019), and for a consistent comparator
  the stable sorted order is unique, so any stable sort computes it. Here: insertion from
  the right, an element going in front of the first later element it does not exceed
  (\<open>cmp x y \<le> 0\<close>).
\<close>

fun sort_insert :: "('a \<Rightarrow> 'a \<Rightarrow> int) \<Rightarrow> 'a \<Rightarrow> 'a list \<Rightarrow> 'a list" where
  "sort_insert cmp x [] = [x]"
| "sort_insert cmp x (y # ys) =
     (if cmp x y \<le> 0 then x # y # ys else y # sort_insert cmp x ys)"

fun Array_sort :: "('a \<Rightarrow> 'a \<Rightarrow> int) \<Rightarrow> 'a list \<Rightarrow> 'a list" where
  "Array_sort cmp [] = []"
| "Array_sort cmp (x # xs) = sort_insert cmp x (Array_sort cmp xs)"

subsection \<open>Plain objects used as dictionaries\<close>

text \<open>
  An object literal \<open>{}\<close> is modelled by its own properties in creation order. Two
  behaviours of such an object are visible in the code and are kept:

  \<^item> \<open>key in obj\<close> also finds the properties inherited from \<open>Object.prototype\<close>, and reading
    one of those yields a function (or, for \<open>__proto__\<close>, the prototype object), none of
    which has a \<open>push\<close> method;
  \<^item> \<open>Object.entries\<close> lists the own keys that are array indices first, in ascending
    numeric order, and the remaining keys after them in creation order.
\<close>

definition Object_prototype_keys :: "string list" where
  "Object_prototype_keys =
     [''constructor'', ''hasOwnProperty'', ''isPrototypeOf'', ''propertyIsEnumerable'',
      ''toLocaleString'', ''toString'', ''valueOf'', ''__proto__'',
      ''__defineGetter__'', ''__defineSetter__'', ''__lookupGetter__'', ''__lookupSetter__'']"

definition hasOwn :: "(string \<times> 'v) list \<Rightarrow> string \<Rightarrow> bool" where
  "hasOwn obj k = (k \<in> set (map fst obj))"

definition key_in :: "string \<Rightarrow> (string \<times> 'v) list \<Rightarrow> bool" where
  "key_in k obj = (hasOwn obj k \<or> k \<in> set Object_prototype_keys)"

text \<open>
  An array index is the canonical decimal spelling (no leading zero) of an integer
  between 0 and \<open>2^32 - 2\<close>.
\<close>

definition is_array_index :: "string \<Rightarrow> bool" where
  "is_array_index k =
     (k \<noteq> [] \<and> list_all is_digit k \<and> (k = ''0'' \<or> hd k \<noteq> CHR ''0'')
      \<and> decimal_value k \<le> 4294967294)"

definition Object_entries :: "(string \<times> 'v) list \<Rightarrow> (string \<times> 'v) list" where
  "Object_entries obj =
     sort_key (\<lambda>e. decimal_value (fst e)) (filter (\<lambda>e. is_array_index (fst e)) obj)
     @ filter (\<lambda>e. \<not> is_array_index (fst e)) obj"

section \<open>Data model (\<open>Paella.tsx\<close>, \<open>index.tsx\<close>)\<close>

record track =
  uri :: string
  flavor :: string
  mimetype :: "string option"
  resolution :: "int list option"
  isMaster :: "bool option"

text \<open>A \<open>Caption\<close> of the event: \<open>{ uri, lang }\<close>.\<close>

record caption =
  caption_uri :: string
  caption_lang :: "string option"

text \<open>The properties handed to \<open>PaellaPlayer\<close>.\<close>

record props =
  tracks :: "track list"
  title :: string
  duration :: number
  isLive :: bool
  captions :: "caption list"
  startTime :: "string option"
  endTime :: "string option"
  previewImage :: "string option"

text \<open>
  A \<open>Source\<close> of the manifest. The components of \<open>res\<close> are \<open>None\<close> where the
  destructuring \<open>[w, h] = ...\<close> finds no element (\<open>undefined\<close>).
\<close>

record source =
  src :: string
  source_mimetype :: string
  res_w :: "int option"
  res_h :: "int option"

text \<open>\<open>Stream["sources"]\<close>: an object with at most the keys \<open>mp4\<close>, \<open>hls\<close>, \<open>hlsLive\<close>.\<close>

type_synonym sources = "(string \<times> source list) list"

record stream =
  content :: string
  sources :: sources
  role :: "string option"

record caption_descriptor =
  format :: string
  url :: string
  lang :: "string option"
  text_label :: string

record metadata =
  meta_title :: string
  meta_duration :: number
  preview :: "string option"

record manifest =
  metadata :: metadata
  streams :: "stream list"
  manifest_captions :: "caption_descriptor list"

text \<open>What \<open>console.warn\<close> has been called with: the message and the track list.\<close>

type_synonym console = "(string \<times> track list) list"

section \<open>\<open>timeStringToSeconds\<close>\<close>

text \<open>
  The pattern \<open>/((\d+)h)?((\d+)m)?((\d+)s)?/\<close> has no anchors and every group is optional,
  so \<open>exec\<close> always succeeds at index 0 and never returns \<open>null\<close>. Each group is greedy:
  it takes the maximal run of digits at the current position if that run is non-empty and
  the unit letter follows it, and is skipped (undefined) otherwise; a shorter run of
  digits is followed by a digit, never by the letter. \<open>match_unit\<close> is one such group:
  the digits captured and the rest of the input.
\<close>

definition match_unit :: "char \<Rightarrow> string \<Rightarrow> string option \<times> string" where
  "match_unit u s =
     (let ds = takeWhile is_digit s; r = dropWhile is_digit s
      in if ds \<noteq> [] \<and> r \<noteq> [] \<and> hd r = u then (Some ds, tl r) else (None, s))"

text \<open>The capture groups 2, 4 and 6 of the match.\<close>

definition timeSplit :: "string \<Rightarrow> string option \<times> string option \<times> string option" where
  "timeSplit timeString =
     (let (g2, s1) = match_unit CHR ''h'' timeString;
          (g4, s2) = match_unit CHR ''m'' s1;
          (g6, s3) = match_unit CHR ''s'' s2
      in (g2, g4, g6))"

definition timeStringToSeconds :: "string \<Rightarrow> double" where
  "timeStringToSeconds timeString =
     (case timeSplit timeString of (g2, g4, g6) \<Rightarrow>
        let hours = (case g2 of Some d \<Rightarrow> times60 (times60 (parseInt d)) | None \<Rightarrow> Finite 0);
            minutes = (case g4 of Some d \<Rightarrow> times60 (parseInt d) | None \<Rightarrow> Finite 0);
            seconds = (case g6 of Some d \<Rightarrow> parseInt d | None \<Rightarrow> Finite 0)
        in plus_double (plus_double hours minutes) seconds)"

text \<open>
  The format as the specification words it: up to three groups, hours, minutes and
  seconds in that order, each a non-empty run of digits followed by its unit letter.
\<close>

definition unit_group :: "char \<Rightarrow> string option \<Rightarrow> string" where
  "unit_group u g = (case g of None \<Rightarrow> [] | Some ds \<Rightarrow> ds @ [u])"

definition digits_ok :: "string option \<Rightarrow> bool" where
  "digits_ok g = (case g of None \<Rightarrow> True | Some ds \<Rightarrow> ds \<noteq> [] \<and> list_all is_digit ds)"

definition group_value :: "string option \<Rightarrow> nat" where
  "group_value g = (case g of None \<Rightarrow> 0 | Some ds \<Rightarrow> decimal_value ds)"

definition time_form :: "string \<Rightarrow> bool" where
  "time_form str =
     (\<exists>h m s. digits_ok h \<and> digits_ok m \<and> digits_ok s
        \<and> str = unit_group CHR ''h'' h @ unit_group CHR ''m'' m @ unit_group CHR ''s'' s)"

text \<open>
  What the pattern reads of an arbitrary string. \<open>starts_with_group u t\<close>: the text \<open>t\<close>
  starts with a non-empty run of digits directly followed by the letter \<open>u\<close>.
  \<open>later_units h m s\<close>: the unit letters that come after the last group present, the
  groups the pattern can still take from the text behind the groups.
\<close>

definition starts_with_group :: "char \<Rightarrow> string \<Rightarrow> bool" where
  "starts_with_group u t =
     (takeWhile is_digit t \<noteq> [] \<and> dropWhile is_digit t \<noteq> []
      \<and> hd (dropWhile is_digit t) = u)"

definition later_units :: "string option \<Rightarrow> string option \<Rightarrow> string option \<Rightarrow> string" where
  "later_units h m s =
     (if s \<noteq> None then [] else if m \<noteq> None then ''s'' else if h \<noteq> None then ''ms'' else ''hms'')"

section \<open>Track classification and sources (\<open>Paella.tsx\<close>)\<close>

definition isHlsTrack :: "track \<Rightarrow> bool" where
  "isHlsTrack t = (mimetype t = Some ''application/x-mpegURL'' \<or> endsWith (uri t) ''.m3u8'')"

text \<open>\<open>const [w, h] = t.resolution ?? [0, 0]\<close>.\<close>

definition trackToSource :: "track \<Rightarrow> source" where
  "trackToSource t =
     (let r = (case resolution t of None \<Rightarrow> [0, 0] | Some xs \<Rightarrow> xs);
          w = (case r of [] \<Rightarrow> None | a # _ \<Rightarrow> Some a);
          h = (case r of a # b # _ \<Rightarrow> Some b | _ \<Rightarrow> None)
      in \<lparr> src = uri t, source_mimetype = ''video/mp4'', res_w = w, res_h = h \<rparr>)"

definition hlsTracks :: "track list \<Rightarrow> track list" where
  "hlsTracks ts =
     Array_sort (\<lambda>a b. Number_of (isMaster b) - Number_of (isMaster a)) (filter isHlsTrack ts)"

definition mp4Tracks :: "track list \<Rightarrow> track list" where
  "mp4Tracks ts = filter (\<lambda>t. \<not> isHlsTrack t) ts"

definition hlsKey :: "bool \<Rightarrow> string" where
  "hlsKey live = (if live then ''hlsLive'' else ''hls'')"

definition tracksToPaellaSources :: "track list \<Rightarrow> bool \<Rightarrow> sources" where
  "tracksToPaellaSources ts live =
     (if mp4Tracks ts \<noteq> [] then [(''mp4'', map trackToSource (mp4Tracks ts))] else [])
     @ (if hlsTracks ts \<noteq> [] then [(hlsKey live, map trackToSource (hlsTracks ts))] else [])"

section \<open>Building the manifest (the effect of \<open>PaellaPlayer\<close>)\<close>

text \<open>\<open>track.flavor.split("/")[0]\<close>: the flavor up to its first \<open>/\<close>, all of it if there is none.\<close>

definition kind :: "track \<Rightarrow> string" where
  "kind t = takeWhile (\<lambda>c. c \<noteq> CHR ''/'') (flavor t)"

text \<open>\<open>tracksByKind[kind].push(track)\<close> on an own property.\<close>

fun push_track :: "string \<Rightarrow> track \<Rightarrow> (string \<times> track list) list \<Rightarrow> (string \<times> track list) list" where
  "push_track k t [] = []"
| "push_track k t ((k', g) # obj) =
     (if k' = k then (k', g @ [t]) # obj else (k', g) # push_track k t obj)"

text \<open>
  The grouping loop. When \<open>kind in tracksByKind\<close> is false the property is created and
  the track pushed. When it is true for an own property the track is pushed. When it is
  true only through \<open>Object.prototype\<close> no array is created, and \<open>.push\<close> on the
  inherited value raises \<open>TypeError\<close>.
\<close>

fun tracksByKind_loop :: "track list \<Rightarrow> (string \<times> track list) list \<Rightarrow> error + (string \<times> track list) list" where
  "tracksByKind_loop [] obj = Inr obj"
| "tracksByKind_loop (t # ts) obj =
     (if \<not> key_in (kind t) obj then tracksByKind_loop ts (obj @ [(kind t, [t])])
      else if hasOwn obj (kind t) then tracksByKind_loop ts (push_track (kind t) t obj)
      else Inl TypeError)"

definition tracksByKind :: "track list \<Rightarrow> error + (string \<times> track list) list" where
  "tracksByKind ts = tracksByKind_loop ts []"

text \<open>
  The duration handed to Paella. \<open>getTime\<close> stands for \<open>new Date(s).getTime()\<close>, the
  platform's date parser: milliseconds since the epoch, \<open>None\<close> for an invalid date (\<open>NaN\<close>).
\<close>

definition diffMs :: "(string \<Rightarrow> int option) \<Rightarrow> string \<Rightarrow> string \<Rightarrow> number" where
  "diffMs getTime e s =
     (case (getTime e, getTime s) of
        (Some a, Some b) \<Rightarrow> Num (of_int (a - b) / 1000)
      | _ \<Rightarrow> NaN)"

definition fixedDuration :: "(string \<Rightarrow> int option) \<Rightarrow> props \<Rightarrow> number" where
  "fixedDuration getTime p =
     (let d = duration p;
          d = (if d = Num 0 \<and> truthy (startTime p) \<and> truthy (endTime p)
               then (case (endTime p, startTime p) of
                       (Some e, Some s) \<Rightarrow> diffMs getTime e s
                     | _ \<Rightarrow> d)
               else d)
      in if d = Num 0 then Num 1 else d)"

text \<open>
  One caption descriptor per caption; \<open>label\<close> is \<open>t("video.caption")\<close>, \<open>n\<close> is
  \<open>captions.length\<close> and \<open>index\<close> the position of the caption.
\<close>

definition caption_text :: "string \<Rightarrow> nat \<Rightarrow> nat \<Rightarrow> string option \<Rightarrow> string" where
  "caption_text label n index l =
     label
     @ (case l of Some v \<Rightarrow> (if v \<noteq> [] then '' ('' @ v @ '')'' else []) | None \<Rightarrow> [])
     @ (if n > 1 then '' ['' @ toString (index + 1) @ '']'' else [])"

definition captionDescriptors :: "string \<Rightarrow> caption list \<Rightarrow> caption_descriptor list" where
  "captionDescriptors label cs =
     map (\<lambda>(index, c).
            \<lparr> format = ''vtt'', url = caption_uri c, lang = caption_lang c,
              text_label = caption_text label (length cs) index (caption_lang c) \<rparr>)
         (zip [0 ..< length cs] cs)"

definition streamsOf :: "(string \<times> track list) list \<Rightarrow> bool \<Rightarrow> stream list" where
  "streamsOf obj live =
     map (\<lambda>(key, ts). \<lparr> content = key, sources = tracksToPaellaSources ts live, role = None \<rparr>)
         (Object_entries obj)"

definition warning :: string where
  "warning = ''Picking first stream as main audio source. Tracks: ''"

text \<open>
  The manifest and the console output, or the exception that ends the effect.
  \<open>manifest.streams[0].role = "mainAudio"\<close> is guarded by \<open>streams.length > 1\<close>, so the
  first stream exists where it is assigned.
\<close>

definition buildManifest :: "(string \<Rightarrow> int option) \<Rightarrow> string \<Rightarrow> props \<Rightarrow> error + manifest \<times> console" where
  "buildManifest getTime label p =
     (case tracksByKind (tracks p) of
        Inl e \<Rightarrow> Inl e
      | Inr obj \<Rightarrow>
          let m = \<lparr> metadata = \<lparr> meta_title = title p,
                                meta_duration = fixedDuration getTime p,
                                preview = previewImage p \<rparr>,
                    streams = streamsOf obj (isLive p),
                    manifest_captions = captionDescriptors label (captions p) \<rparr>
          in if length (streams m) > 1 \<and> \<not> key_in ''presenter'' obj
             then (case streams m of
                     s0 # rest \<Rightarrow>
                       Inr (m\<lparr> streams := s0\<lparr> role := Some ''mainAudio'' \<rparr> # rest \<rparr>,
                            [(warning, tracks p)])
                   | [] \<Rightarrow> Inr (m, []))
             else Inr (m, []))"

subsection \<open>Kind groups\<close>

text \<open>
  The grouping as the specification describes it, to compare the loop with: the kinds in
  the order in which the track list first shows them, and for each kind its tracks in
  input order.
\<close>

definition first_kinds :: "track list \<Rightarrow> string list" where
  "first_kinds ts = rev (remdups (rev (map kind ts)))"

definition kind_groups :: "track list \<Rightarrow> (string \<times> track list) list" where
  "kind_groups ts = map (\<lambda>k. (k, filter (\<lambda>t. kind t = k) ts)) (first_kinds ts)"

section \<open>The shell (\<open>index.tsx\<close>)\<close>

text \<open>
  \<open>delayTill\<close>: \<open>date\<close> is \<open>date.getTime()\<close> and \<open>now\<close> is \<open>Date.now()\<close>, both integer
  milliseconds.
\<close>

definition delayTill :: "int \<Rightarrow> int \<Rightarrow> int" where
  "delayTill now date = (let raw = date - now + 500 in min raw 2147483647)"

text \<open>The value the specification describes for the same inputs.\<close>

definition delayTill_spec :: "int \<Rightarrow> int \<Rightarrow> int" where
  "delayTill_spec now date = min (max 0 (date - now + 500)) 2147483647"

text \<open>
  What \<open>Player\<close> renders. \<open>hasStarted\<close> and \<open>hasEnded\<close> come from \<open>getEventTimeInfo\<close>
  and are \<open>true\<close>, \<open>false\<close> or unknown (\<open>None\<close>); \<open>start\<close> is the start time passed on to
  the pending placeholder.
\<close>

datatype 'd placeholder_mode = Pending 'd | Ended

datatype 'd rendered = LiveEventPlaceholder "'d placeholder_mode" | LoadPaellaPlayer

definition Player :: "bool \<Rightarrow> bool option \<Rightarrow> bool option \<Rightarrow> 'd \<Rightarrow> 'd rendered" where
  "Player live hasStarted hasEnded start =
     (if live \<and> (hasStarted = Some False \<or> hasEnded = Some True)
      then LiveEventPlaceholder (if hasStarted = Some False then Pending start else Ended)
      else LoadPaellaPlayer)"

text \<open>
  \<open>getPlayerAspectRatio\<close>. \<open>tracks[0]\<close> of an empty array is \<open>undefined\<close>, and reading
  \<open>.resolution\<close> from it raises \<open>TypeError\<close>.
\<close>

definition getPlayerAspectRatio :: "track list \<Rightarrow> error + int list" where
  "getPlayerAspectRatio ts =
     (let flavors = set (map flavor ts); default = [16, 9]
      in if card flavors > 1 then Inr default
         else (case ts of
                 [] \<Rightarrow> Inl TypeError
               | t0 # _ \<Rightarrow> Inr (case resolution t0 of None \<Rightarrow> default | Some r \<Rightarrow> r)))"

section \<open>Properties of \<open>delayTill\<close>\<close>

text \<open>
  Claim C1 as stated (the result is \<open>max(0, date - now + 500)\<close> clamped to 2147483647 and
  is never negative) fails for a date more than 500 ms in the past: \<open>delayTill\<close> has
  no lower clamp. With \<open>now = 1000\<close> and \<open>date = 0\<close> the code returns \<open>-500\<close>, the
  specification's formula gives 0.
\<close>

theorem delayTill_negative_counterexample:
  "delayTill 1000 0 = - 500 \<and> delayTill_spec 1000 0 = 0"
  by (simp add: delayTill_def delayTill_spec_def)

text \<open>
  Claim C1, amended: \<open>delayTill\<close> returns \<open>min(date - now + 500, 2147483647)\<close>. Whenever
  the raw delay exceeds 2147483647 the result is exactly 2147483647; whenever the raw
  delay is not negative the result is the specification's value and is not negative;
  a negative raw delay is returned as it is.
\<close>

theorem delayTill_min:
  "delayTill now date = min (date - now + 500) 2147483647
   \<and> (2147483647 < date - now + 500 \<longrightarrow> delayTill now date = 2147483647)
   \<and> (0 \<le> date - now + 500 \<longrightarrow>
        delayTill now date = delayTill_spec now date \<and> 0 \<le> delayTill now date)
   \<and> (date - now + 500 < 0 \<longrightarrow> delayTill now date = date - now + 500)"
  by (simp add: delayTill_def delayTill_spec_def Let_def)

theorem delayTill_min_witness:
  "delayTill 0 3000000000 = 2147483647
   \<and> delayTill 0 3000000000 = delayTill_spec 0 3000000000
   \<and> delayTill 0 1000 = 1500
   \<and> delayTill 1000 0 = - 500"
  using delayTill_min [of 0 3000000000] delayTill_min [of 1000 0] delayTill_min [of 0 1000]
  by (simp add: delayTill_spec_def)

section \<open>Properties of \<open>timeStringToSeconds\<close>\<close>

subsection \<open>Arithmetic below \<open>2^53\<close> is exact\<close>

lemma to_double_exact: "n < 9007199254740992 \<Longrightarrow> to_double n = Finite n"
  by (simp add: to_double_def)

lemma hours_exact:
  "v * 3600 < 9007199254740992 \<Longrightarrow>
   times60 (times60 (to_double v)) = Finite (v * 3600)"
  by (simp add: to_double_exact)

lemma minutes_exact:
  "v * 60 < 9007199254740992 \<Longrightarrow> times60 (to_double v) = Finite (v * 60)"
  by (simp add: to_double_exact)

lemma total_exact:
  assumes "a * 3600 + b * 60 + c < 9007199254740992"
  shows "plus_double
           (plus_double (times60 (times60 (to_double a))) (times60 (to_double b)))
           (to_double c)
         = Finite (a * 3600 + b * 60 + c)"
proof -
  from assms have "a * 3600 < 9007199254740992" and "b * 60 < 9007199254740992"
    and "c < 9007199254740992" and "a * 3600 + b * 60 < 9007199254740992"
    by simp_all
  with assms show ?thesis
    by (simp add: hours_exact minutes_exact to_double_exact)
qed

lemma to_double_0: "to_double 0 = Finite 0"
  by (simp add: to_double_exact)

subsection \<open>One group of the pattern\<close>

lemma takeWhile_nondigit:
  "r = [] \<or> \<not> is_digit (hd r) \<Longrightarrow> takeWhile is_digit r = []"
  by (cases r) auto

lemma dropWhile_nondigit:
  "r = [] \<or> \<not> is_digit (hd r) \<Longrightarrow> dropWhile is_digit r = r"
  by (cases r) auto

lemma takeWhile_digits:
  "list_all is_digit ds \<Longrightarrow> r = [] \<or> \<not> is_digit (hd r) \<Longrightarrow>
   takeWhile is_digit (ds @ r) = ds"
  by (induction ds) (simp_all add: takeWhile_nondigit)

lemma dropWhile_digits:
  "list_all is_digit ds \<Longrightarrow> r = [] \<or> \<not> is_digit (hd r) \<Longrightarrow>
   dropWhile is_digit (ds @ r) = r"
  by (induction ds) (simp_all add: dropWhile_nondigit)

text \<open>A run of digits in front of a non-digit: the group matches exactly when the run is
  not empty and the non-digit is the group's unit letter.\<close>

lemma match_unit_digits:
  assumes "list_all is_digit ds" and "r = [] \<or> \<not> is_digit (hd r)"
  shows "match_unit u (ds @ r) =
           (if ds \<noteq> [] \<and> r \<noteq> [] \<and> hd r = u then (Some ds, tl r) else (None, ds @ r))"
  using assms by (simp add: match_unit_def takeWhile_digits dropWhile_digits)

lemma match_unit_hit:
  "ds \<noteq> [] \<Longrightarrow> list_all is_digit ds \<Longrightarrow> \<not> is_digit u \<Longrightarrow>
   match_unit u (ds @ u # r) = (Some ds, r)"
  using match_unit_digits [of ds "u # r" u] by simp

lemma match_unit_other:
  "list_all is_digit ds \<Longrightarrow> \<not> is_digit v \<Longrightarrow> v \<noteq> u \<Longrightarrow>
   match_unit u (ds @ v # r) = (None, ds @ v # r)"
  using match_unit_digits [of ds "v # r" u] by simp

lemma match_unit_skip: "\<not> starts_with_group u t \<Longrightarrow> match_unit u t = (None, t)"
  by (auto simp: match_unit_def starts_with_group_def Let_def)

text \<open>For a unit letter, \<open>starts_with_group\<close> says what its name says.\<close>

lemma starts_with_group_iff:
  assumes "\<not> is_digit u"
  shows "starts_with_group u t \<longleftrightarrow>
           (\<exists>ds rest. ds \<noteq> [] \<and> list_all is_digit ds \<and> t = ds @ u # rest)"
proof
  assume s: "starts_with_group u t"
  let ?ds = "takeWhile is_digit t" and ?r = "dropWhile is_digit t"
  from s have "?ds \<noteq> []" and "?r \<noteq> []" and "hd ?r = u"
    by (simp_all add: starts_with_group_def)
  moreover have "list_all is_digit ?ds"
    by (simp add: list_all_iff) (metis set_takeWhileD)
  moreover from calculation have "t = ?ds @ u # tl ?r"
    by (metis hd_Cons_tl takeWhile_dropWhile_id)
  ultimately show "\<exists>ds rest. ds \<noteq> [] \<and> list_all is_digit ds \<and> t = ds @ u # rest"
    by blast
next
  assume "\<exists>ds rest. ds \<noteq> [] \<and> list_all is_digit ds \<and> t = ds @ u # rest"
  then obtain ds rest where "ds \<noteq> []" and "list_all is_digit ds" and "t = ds @ u # rest"
    by blast
  with assms show "starts_with_group u t"
    by (simp add: starts_with_group_def takeWhile_digits dropWhile_digits)
qed

lemma unit_not_digit:
  "\<not> is_digit CHR ''h''" "\<not> is_digit CHR ''m''" "\<not> is_digit CHR ''s''"
  by (simp_all add: is_digit_def)

text \<open>What a group leaves: the digits it captured are a proper run, the input is the group
  followed by the rest, and a skipped group was not there to take.\<close>

lemma match_unit_split:
  assumes "match_unit u t = (g, t')"
  shows "digits_ok g \<and> t = unit_group u g @ t' \<and> (g = None \<longrightarrow> \<not> starts_with_group u t)"
proof (cases "starts_with_group u t")
  case True
  let ?ds = "takeWhile is_digit t" and ?r = "dropWhile is_digit t"
  from True have ne: "?ds \<noteq> []" "?r \<noteq> []" and hd: "hd ?r = u"
    by (simp_all add: starts_with_group_def)
  with assms have g: "g = Some ?ds" and t': "t' = tl ?r"
    by (simp_all add: match_unit_def Let_def)
  have "list_all is_digit ?ds"
    by (simp add: list_all_iff) (metis set_takeWhileD)
  moreover have "t = ?ds @ u # tl ?r"
    using ne hd by (metis hd_Cons_tl takeWhile_dropWhile_id)
  ultimately show ?thesis
    using g t' ne by (simp add: digits_ok_def unit_group_def)
next
  case False
  with assms match_unit_skip [OF False] show ?thesis
    by (simp add: digits_ok_def unit_group_def)
qed

text \<open>
  Claim C3 as stated (the total for a string of the form, 0 for every malformed or empty
  string) fails on a malformed string that starts with a well-formed group: the pattern
  is not anchored, so \<open>1hx\<close>, which is not of the form, yields 3600 and not 0.
\<close>

theorem timeStringToSeconds_malformed_counterexample:
  "\<not> time_form ''1hx'' \<and> timeStringToSeconds ''1hx'' = Finite 3600"
proof
  show "\<not> time_form ''1hx''"
  proof
    assume "time_form ''1hx''"
    then obtain h m s where eq:
      "''1hx'' = unit_group CHR ''h'' h @ unit_group CHR ''m'' m @ unit_group CHR ''s'' s"
      unfolding time_form_def by blast
    from eq arg_cong [OF eq, of last] show False
      by (cases h; cases m; cases s) (simp_all add: unit_group_def)
  qed
next
  show "timeStringToSeconds ''1hx'' = Finite 3600"
    by (simp add: timeStringToSeconds_def timeSplit_def match_unit_def is_digit_def
        parseInt_def decimal_value_def digit_val_def to_double_def)
qed

text \<open>
  Claim C3, amended. Every string is, in the way the pattern reads it, an optional hour
  group, an optional minute group and an optional second group in that order, followed
  by a tail that does not start with a group the pattern could still take (a group whose
  unit comes after the last group present). For every string read so, whatever the tail,
  \<open>timeStringToSeconds\<close> returns \<open>h * 3600 + m * 60 + s\<close> of the groups, absent groups
  counting 0, provided this total is below \<open>2^53\<close> (beyond that the arithmetic of doubles
  rounds). The tail is ignored: a string of the form (empty tail) yields its total, the
  empty string and every string that does not start with a group yield 0, and a
  malformed string that starts with groups yields the total of those groups.
\<close>

theorem timeStringToSeconds_leading_groups:
  "(digits_ok h \<and> digits_ok m \<and> digits_ok s
      \<and> list_all (\<lambda>u. \<not> starts_with_group u tail) (later_units h m s)
      \<and> group_value h * 3600 + group_value m * 60 + group_value s < 9007199254740992
    \<longrightarrow> timeStringToSeconds
          (unit_group CHR ''h'' h @ unit_group CHR ''m'' m @ unit_group CHR ''s'' s @ tail)
        = Finite (group_value h * 3600 + group_value m * 60 + group_value s))
   \<and> (\<exists>h' m' s' tail'.
        digits_ok h' \<and> digits_ok m' \<and> digits_ok s'
        \<and> list_all (\<lambda>u. \<not> starts_with_group u tail') (later_units h' m' s')
        \<and> str = unit_group CHR ''h'' h' @ unit_group CHR ''m'' m' @ unit_group CHR ''s'' s'
                 @ tail')"
proof
  show "digits_ok h \<and> digits_ok m \<and> digits_ok s
      \<and> list_all (\<lambda>u. \<not> starts_with_group u tail) (later_units h m s)
      \<and> group_value h * 3600 + group_value m * 60 + group_value s < 9007199254740992
    \<longrightarrow> timeStringToSeconds
          (unit_group CHR ''h'' h @ unit_group CHR ''m'' m @ unit_group CHR ''s'' s @ tail)
        = Finite (group_value h * 3600 + group_value m * 60 + group_value s)"
  proof
    assume a: "digits_ok h \<and> digits_ok m \<and> digits_ok s
      \<and> list_all (\<lambda>u. \<not> starts_with_group u tail) (later_units h m s)
      \<and> group_value h * 3600 + group_value m * 60 + group_value s < 9007199254740992"
    let ?str = "unit_group CHR ''h'' h @ unit_group CHR ''m'' m @ unit_group CHR ''s'' s @ tail"
    have split: "timeSplit ?str = (h, m, s)"
      using a
      by (cases h; cases m; cases s)
         (simp_all add: timeSplit_def unit_group_def digits_ok_def later_units_def
            match_unit_hit match_unit_other match_unit_skip unit_not_digit)
    have "timeStringToSeconds ?str
        = plus_double
           (plus_double (times60 (times60 (to_double (group_value h))))
              (times60 (to_double (group_value m))))
           (to_double (group_value s))"
      unfolding timeStringToSeconds_def split
      by (cases h; cases m; cases s)
         (simp_all add: group_value_def parseInt_def to_double_0)
    with a show "timeStringToSeconds ?str
        = Finite (group_value h * 3600 + group_value m * 60 + group_value s)"
      by (simp add: total_exact)
  qed
next
  obtain h' t1 where 1: "match_unit CHR ''h'' str = (h', t1)" by (cases "match_unit CHR ''h'' str")
  obtain m' t2 where 2: "match_unit CHR ''m'' t1 = (m', t2)" by (cases "match_unit CHR ''m'' t1")
  obtain s' t3 where 3: "match_unit CHR ''s'' t2 = (s', t3)" by (cases "match_unit CHR ''s'' t2")
  note A = match_unit_split [OF 1] and B = match_unit_split [OF 2] and C = match_unit_split [OF 3]
  have str: "str = unit_group CHR ''h'' h' @ unit_group CHR ''m'' m' @ unit_group CHR ''s'' s' @ t3"
    using A B C by simp
  have "list_all (\<lambda>u. \<not> starts_with_group u t3) (later_units h' m' s')"
    using A B C
    by (cases h'; cases m'; cases s') (simp_all add: later_units_def unit_group_def)
  with A B C str show "\<exists>h' m' s' tail'.
        digits_ok h' \<and> digits_ok m' \<and> digits_ok s'
        \<and> list_all (\<lambda>u. \<not> starts_with_group u tail') (later_units h' m' s')
        \<and> str = unit_group CHR ''h'' h' @ unit_group CHR ''m'' m' @ unit_group CHR ''s'' s'
                 @ tail'"
    by blast
qed

theorem timeStringToSeconds_leading_groups_witness:
  "timeStringToSeconds ''1h30m5s'' = Finite 5405
   \<and> timeStringToSeconds ''90s&x=1m'' = Finite 90
   \<and> timeStringToSeconds ''5s3m'' = Finite 5
   \<and> timeStringToSeconds ''1m1h'' = Finite 60
   \<and> timeStringToSeconds ''1h2h'' = Finite 3600
   \<and> timeStringToSeconds ''120'' = Finite 0
   \<and> timeStringToSeconds ''hello'' = Finite 0
   \<and> timeStringToSeconds [] = Finite 0"
  using timeStringToSeconds_leading_groups [of "Some ''1''" "Some ''30''" "Some ''5''" "[]"]
        timeStringToSeconds_leading_groups [of None None "Some ''90''" "''&x=1m''"]
        timeStringToSeconds_leading_groups [of None None "Some ''5''" "''3m''"]
        timeStringToSeconds_leading_groups [of None "Some ''1''" None "''1h''"]
        timeStringToSeconds_leading_groups [of "Some ''1''" None None "''2h''"]
        timeStringToSeconds_leading_groups [of None None None "''120''"]
        timeStringToSeconds_leading_groups [of None None None "''hello''"]
        timeStringToSeconds_leading_groups [of None None None "[]"]
  by (simp add: digits_ok_def unit_group_def group_value_def is_digit_def decimal_value_def
      digit_val_def later_units_def starts_with_group_def)

text \<open>Beyond \<open>2^53\<close> the result is the rounded one: \<open>2^53 + 1\<close> seconds come out as \<open>2^53\<close>.\<close>

lemma timeStringToSeconds_rounds:
  "timeStringToSeconds ''9007199254740993s'' = Finite 9007199254740992"
  by (simp add: timeStringToSeconds_def timeSplit_def match_unit_def is_digit_def
      parseInt_def decimal_value_def digit_val_def to_double_def bit_length.simps Let_def)

section \<open>Properties of \<open>Player\<close>\<close>

text \<open>
  Claim C8: for every live flag and every tri-state \<open>hasStarted\<close>, \<open>hasEnded\<close>, the shell
  renders the pending placeholder exactly when the event is live and \<open>hasStarted\<close> is
  \<open>false\<close>; the ended placeholder exactly when the event is live, \<open>hasEnded\<close> is \<open>true\<close>
  and \<open>hasStarted\<close> is not \<open>false\<close>; and the external player in every other case.
\<close>

theorem Player_states:
  "(Player live hasStarted hasEnded start = LiveEventPlaceholder (Pending start)
      \<longleftrightarrow> live \<and> hasStarted = Some False)
   \<and> (Player live hasStarted hasEnded start = LiveEventPlaceholder Ended
      \<longleftrightarrow> live \<and> hasEnded = Some True \<and> hasStarted \<noteq> Some False)
   \<and> (Player live hasStarted hasEnded start = LoadPaellaPlayer
      \<longleftrightarrow> \<not> live \<or> (hasStarted \<noteq> Some False \<and> hasEnded \<noteq> Some True))"
  by (auto simp: Player_def)

theorem Player_states_witness:
  "Player True (Some False) (Some False) (0::int) = LiveEventPlaceholder (Pending 0)
   \<and> Player True (Some True) (Some True) (0::int) = LiveEventPlaceholder Ended
   \<and> Player True None (Some True) (0::int) = LiveEventPlaceholder Ended
   \<and> Player True (Some True) (Some False) (0::int) = LoadPaellaPlayer
   \<and> Player True None None (0::int) = LoadPaellaPlayer
   \<and> Player False (Some False) (Some True) (0::int) = LoadPaellaPlayer"
  using Player_states [of True "Some False" "Some False" "0::int"]
        Player_states [of True "Some True" "Some True" "0::int"]
        Player_states [of True None "Some True" "0::int"]
        Player_states [of True "Some True" "Some False" "0::int"]
        Player_states [of True None None "0::int"]
        Player_states [of False "Some False" "Some True" "0::int"]
  by simp

section \<open>Properties of the track classification\<close>

text \<open>With the master comparator, a master playlist goes to the front.\<close>

lemma sort_insert_master:
  "isMaster x = Some True \<Longrightarrow>
   sort_insert (\<lambda>a b. Number_of (isMaster b) - Number_of (isMaster a)) x ys = x # ys"
  by (cases ys) (auto simp: Number_of_def split: option.splits bool.splits)

text \<open>Any other track passes the masters and stops in front of the first non-master.\<close>

lemma sort_insert_other:
  "isMaster x \<noteq> Some True \<Longrightarrow> list_all (\<lambda>t. isMaster t = Some True) ms \<Longrightarrow>
   list_all (\<lambda>t. isMaster t \<noteq> Some True) ns \<Longrightarrow>
   sort_insert (\<lambda>a b. Number_of (isMaster b) - Number_of (isMaster a)) x (ms @ ns) = ms @ x # ns"
proof (induction ms)
  case Nil
  then show ?case
    by (cases ns) (auto simp: Number_of_def split: option.splits bool.splits)
next
  case (Cons m ms)
  then show ?case
    by (auto simp: Number_of_def split: option.splits bool.splits)
qed

lemma Array_sort_master_first:
  "Array_sort (\<lambda>a b. Number_of (isMaster b) - Number_of (isMaster a)) xs
   = filter (\<lambda>t. isMaster t = Some True) xs @ filter (\<lambda>t. isMaster t \<noteq> Some True) xs"
proof (induction xs)
  case Nil
  show ?case by simp
next
  case (Cons x xs)
  show ?case
  proof (cases "isMaster x = Some True")
    case True
    then show ?thesis using Cons.IH by (simp add: sort_insert_master)
  next
    case False
    then show ?thesis
      using Cons.IH
        sort_insert_other [of x "filter (\<lambda>t. isMaster t = Some True) xs"
          "filter (\<lambda>t. isMaster t \<noteq> Some True) xs"]
      by (simp add: list_all_iff)
  qed
qed

lemma endsWith_iff: "endsWith s suf \<longleftrightarrow> (\<exists>pre. s = pre @ suf)"
proof
  assume "endsWith s suf"
  then have "s = take (length s - length suf) s @ suf"
    by (metis append_take_drop_id endsWith_def)
  then show "\<exists>pre. s = pre @ suf" ..
next
  assume "\<exists>pre. s = pre @ suf"
  then show "endsWith s suf" by (auto simp: endsWith_def)
qed

lemma hlsTracks_eq:
  "hlsTracks ts = filter (\<lambda>t. isMaster t = Some True) (filter isHlsTrack ts)
       @ filter (\<lambda>t. isMaster t \<noteq> Some True) (filter isHlsTrack ts)"
  by (simp add: hlsTracks_def Array_sort_master_first)

lemma hlsTracks_Nil: "hlsTracks ts = [] \<longleftrightarrow> filter isHlsTrack ts = []"
  by (auto simp: hlsTracks_eq filter_empty_conv)

text \<open>
  Claim C5: a track is a segmented-manifest (HLS) track exactly when its mimetype is
  \<open>application/x-mpegURL\<close> or its URI ends with \<open>.m3u8\<close>, and every other track is
  progressive. The sorted HLS list is the HLS tracks whose \<open>isMaster\<close> is \<open>true\<close>, in
  input order, followed by the HLS tracks whose \<open>isMaster\<close> is \<open>false\<close> or \<open>null\<close>, in
  input order: masters first, and a stable order among tracks with equal flag. These
  two lists are what \<open>tracksToPaellaSources\<close> stores under the HLS key and under \<open>mp4\<close>.
\<close>

theorem hls_classified_and_master_first:
  "(isHlsTrack t \<longleftrightarrow>
      mimetype t = Some ''application/x-mpegURL'' \<or> (\<exists>pre. uri t = pre @ ''.m3u8''))
   \<and> mp4Tracks ts = filter (\<lambda>t. \<not> isHlsTrack t) ts
   \<and> hlsTracks ts
       = filter (\<lambda>t. isMaster t = Some True) (filter isHlsTrack ts)
         @ filter (\<lambda>t. isMaster t \<noteq> Some True) (filter isHlsTrack ts)
   \<and> map_of (tracksToPaellaSources ts live) (hlsKey live)
       = (if filter isHlsTrack ts = [] then None
          else Some (map trackToSource
                 (filter (\<lambda>t. isMaster t = Some True) (filter isHlsTrack ts)
                  @ filter (\<lambda>t. isMaster t \<noteq> Some True) (filter isHlsTrack ts))))
   \<and> map_of (tracksToPaellaSources ts live) ''mp4''
       = (if filter (\<lambda>t. \<not> isHlsTrack t) ts = [] then None
          else Some (map trackToSource (filter (\<lambda>t. \<not> isHlsTrack t) ts)))"
proof -
  have a: "isHlsTrack t \<longleftrightarrow>
      mimetype t = Some ''application/x-mpegURL'' \<or> (\<exists>pre. uri t = pre @ ''.m3u8'')"
    by (simp add: isHlsTrack_def endsWith_iff)
  have b: "mp4Tracks ts = filter (\<lambda>t. \<not> isHlsTrack t) ts"
    by (simp add: mp4Tracks_def)
  have k: "hlsKey live \<noteq> ''mp4''"
    by (simp add: hlsKey_def)
  have c: "map_of (tracksToPaellaSources ts live) (hlsKey live)
       = (if filter isHlsTrack ts = [] then None else Some (map trackToSource (hlsTracks ts)))"
    using k by (simp add: tracksToPaellaSources_def hlsTracks_Nil)
  have d: "map_of (tracksToPaellaSources ts live) ''mp4''
       = (if mp4Tracks ts = [] then None else Some (map trackToSource (mp4Tracks ts)))"
    using k by (simp add: tracksToPaellaSources_def)
  show ?thesis
    using a b c d hlsTracks_eq [of ts] by simp
qed

theorem hls_classified_and_master_first_witness:
  "map uri (hlsTracks
     [\<lparr> uri = ''low.m3u8'', flavor = ''presenter/delivery'', mimetype = None,
        resolution = None, isMaster = Some False \<rparr>,
      \<lparr> uri = ''video.mp4'', flavor = ''presenter/delivery'', mimetype = Some ''video/mp4'',
        resolution = None, isMaster = None \<rparr>,
      \<lparr> uri = ''high'', flavor = ''presenter/delivery'',
        mimetype = Some ''application/x-mpegURL'', resolution = None, isMaster = None \<rparr>,
      \<lparr> uri = ''index.m3u8'', flavor = ''presenter/delivery'', mimetype = None,
        resolution = None, isMaster = Some True \<rparr>])
   = [''index.m3u8'', ''low.m3u8'', ''high'']"
  using hls_classified_and_master_first [of
     "\<lparr> uri = ''index.m3u8'', flavor = ''presenter/delivery'', mimetype = None,
        resolution = None, isMaster = Some True \<rparr>"
     "[\<lparr> uri = ''low.m3u8'', flavor = ''presenter/delivery'', mimetype = None,
        resolution = None, isMaster = Some False \<rparr>,
      \<lparr> uri = ''video.mp4'', flavor = ''presenter/delivery'', mimetype = Some ''video/mp4'',
        resolution = None, isMaster = None \<rparr>,
      \<lparr> uri = ''high'', flavor = ''presenter/delivery'',
        mimetype = Some ''application/x-mpegURL'', resolution = None, isMaster = None \<rparr>,
      \<lparr> uri = ''index.m3u8'', flavor = ''presenter/delivery'', mimetype = None,
        resolution = None, isMaster = Some True \<rparr>]" False]
  by (simp add: isHlsTrack_def endsWith_def)

text \<open>The keys of the sources object: \<open>mp4\<close> when there is a progressive track, then
  \<open>hlsLive\<close> (live) or \<open>hls\<close> (not live) when there is a segmented-manifest track.\<close>

lemma tracksToPaellaSources_keys:
  "map fst (tracksToPaellaSources ts live)
   = (if filter (\<lambda>t. \<not> isHlsTrack t) ts \<noteq> [] then [''mp4''] else [])
     @ (if filter isHlsTrack ts \<noteq> [] then [if live then ''hlsLive'' else ''hls''] else [])"
  by (simp add: tracksToPaellaSources_def hlsTracks_Nil mp4Tracks_def hlsKey_def)

lemma sources_from_tracks:
  assumes "(k, ss) \<in> set (tracksToPaellaSources ts live)" and "s \<in> set ss"
  shows "\<exists>t \<in> set ts. s = trackToSource t"
proof -
  have "set (hlsTracks ts) \<subseteq> set ts"
    by (auto simp: hlsTracks_eq)
  moreover have "set (mp4Tracks ts) \<subseteq> set ts"
    by (auto simp: mp4Tracks_def)
  ultimately show ?thesis
    using assms by (auto simp: tracksToPaellaSources_def split: if_splits) blast+
qed

section \<open>Properties of the duration and the captions\<close>



text \<open>The rendering of an index is its decimal numeral: parsing it gives the index back.\<close>

lemma decimal_value_snoc: "decimal_value (ds @ [c]) = 10 * decimal_value ds + digit_val c"
  by (simp add: decimal_value_def)

lemma digit_val_nth: "k < 10 \<Longrightarrow> digit_val (''0123456789'' ! k) = k"
proof -
  assume "k < 10"
  then have "k \<in> {0, 1, 2, 3, 4, 5, 6, 7, 8, 9}" by auto
  then show ?thesis by (auto simp: digit_val_def)
qed

lemma decimal_value_toString: "decimal_value (toString n) = n"
proof (induction n rule: toString.induct)
  case (1 n)
  show ?case
  proof (cases "n < 10")
    case True
    then show ?thesis
      by (subst toString.simps) (simp add: decimal_value_def digit_val_nth)
  next
    case False
    with "1" have "decimal_value (toString (n div 10)) = n div 10" by simp
    with False show ?thesis
      by (subst toString.simps) (simp add: decimal_value_snoc digit_val_nth)
  qed
qed

text \<open>
  Claim C6: there is one caption descriptor per caption, in the same order. Its label
  is the localized caption label, then \<open> (<language>)\<close> exactly when the language tag is
  present (not \<open>null\<close> and not empty), then \<open> [<1-based index>]\<close> exactly when there is
  more than one caption. With a single caption there is no index suffix.
\<close>

theorem caption_labels:
  "length (captionDescriptors label cs) = length cs
   \<and> (\<forall>i < length cs.
        text_label (captionDescriptors label cs ! i)
          = label
            @ (if truthy (caption_lang (cs ! i))
               then '' ('' @ the (caption_lang (cs ! i)) @ '')'' else [])
            @ (if 1 < length cs then '' ['' @ toString (i + 1) @ '']'' else [])
        \<and> url (captionDescriptors label cs ! i) = caption_uri (cs ! i)
        \<and> lang (captionDescriptors label cs ! i) = caption_lang (cs ! i)
        \<and> format (captionDescriptors label cs ! i) = ''vtt'')"
  by (auto simp: captionDescriptors_def caption_text_def truthy_def split: option.splits)

theorem caption_labels_witness:
  "map text_label (captionDescriptors ''Caption''
       [\<lparr> caption_uri = ''a.vtt'', caption_lang = Some ''en'' \<rparr>]) = [''Caption (en)'']
   \<and> map text_label (captionDescriptors ''Caption''
       [\<lparr> caption_uri = ''a.vtt'', caption_lang = Some ''en'' \<rparr>,
        \<lparr> caption_uri = ''b.vtt'', caption_lang = Some ''fr'' \<rparr>,
        \<lparr> caption_uri = ''c.vtt'', caption_lang = None \<rparr>])
      = [''Caption (en) [1]'', ''Caption (fr) [2]'', ''Caption [3]'']"
  using caption_labels [of "''Caption''" "[\<lparr> caption_uri = ''a.vtt'', caption_lang = Some ''en'' \<rparr>]"]
    caption_labels [of "''Caption''" "[\<lparr> caption_uri = ''a.vtt'', caption_lang = Some ''en'' \<rparr>,
        \<lparr> caption_uri = ''b.vtt'', caption_lang = Some ''fr'' \<rparr>,
        \<lparr> caption_uri = ''c.vtt'', caption_lang = None \<rparr>]"]
  by (simp add: captionDescriptors_def caption_text_def toString.simps upt_rec)

section \<open>Properties of the grouping loop\<close>

text \<open>
  The loop computes the kind groups whenever no kind is the name of a property that a
  plain object inherits, and raises \<open>TypeError\<close> as soon as one is.
\<close>

lemma first_kinds_snoc:
  "first_kinds (ts @ [t]) =
     (if kind t \<in> set (map kind ts) then first_kinds ts else first_kinds ts @ [kind t])"
  by (simp add: first_kinds_def)

lemma set_first_kinds: "set (first_kinds ts) = kind ` set ts"
  by (simp add: first_kinds_def)

lemma distinct_first_kinds: "distinct (first_kinds ts)"
  by (simp add: first_kinds_def)

lemma fst_kind_groups: "map fst (kind_groups ts) = first_kinds ts"
  by (simp add: kind_groups_def comp_def)

lemma hasOwn_kind_groups: "hasOwn (kind_groups ts) k \<longleftrightarrow> k \<in> kind ` set ts"
  by (simp add: hasOwn_def fst_kind_groups set_first_kinds)

lemma push_track_map:
  "distinct ks \<Longrightarrow>
   push_track k t (map (\<lambda>k'. (k', g k')) ks)
     = map (\<lambda>k'. (k', if k' = k then g k' @ [t] else g k')) ks"
proof (induction ks)
  case Nil
  show ?case by simp
next
  case (Cons a ks)
  show ?case
  proof (cases "a = k")
    case True
    with Cons.prems have "k \<notin> set ks" by simp
    then have "map (\<lambda>k'. (k', if k' = k then g k' @ [t] else g k')) ks = map (\<lambda>k'. (k', g k')) ks"
      by (intro map_cong) auto
    with True show ?thesis by simp
  next
    case False
    with Cons show ?thesis by simp
  qed
qed

lemma kind_groups_new:
  assumes "kind t \<notin> kind ` set ts"
  shows "kind_groups ts @ [(kind t, [t])] = kind_groups (ts @ [t])"
proof -
  have nk: "kind t \<notin> set (first_kinds ts)"
    using assms by (simp add: set_first_kinds)
  have "\<forall>u \<in> set ts. kind u \<noteq> kind t"
    using assms by (metis imageI)
  then have f0: "filter (\<lambda>u. kind u = kind t) ts = []"
    by (simp add: filter_empty_conv)
  have e1: "first_kinds (ts @ [t]) = first_kinds ts @ [kind t]"
    using assms by (simp add: first_kinds_snoc)
  have e2: "map (\<lambda>k. (k, filter (\<lambda>u. kind u = k) (ts @ [t]))) (first_kinds ts)
          = map (\<lambda>k. (k, filter (\<lambda>u. kind u = k) ts)) (first_kinds ts)"
    using nk by (intro map_cong) auto
  show ?thesis
    unfolding kind_groups_def e1 map_append e2 by (simp add: f0)
qed

lemma kind_groups_push:
  assumes "kind t \<in> kind ` set ts"
  shows "push_track (kind t) t (kind_groups ts) = kind_groups (ts @ [t])"
proof -
  have "map (\<lambda>k. (k, if k = kind t then filter (\<lambda>u. kind u = k) ts @ [t]
                      else filter (\<lambda>u. kind u = k) ts)) (first_kinds ts)
      = map (\<lambda>k. (k, filter (\<lambda>u. kind u = k) ts @ (if kind t = k then [t] else [])))
          (first_kinds ts)"
    by (intro map_cong) auto
  then show ?thesis
    using assms
    by (simp add: kind_groups_def first_kinds_snoc push_track_map [OF distinct_first_kinds])
qed

lemma tracksByKind_loop_groups:
  "\<forall>t \<in> set ts. kind t \<notin> set Object_prototype_keys \<Longrightarrow>
   tracksByKind_loop ts (kind_groups pre) = Inr (kind_groups (pre @ ts))"
proof (induction ts arbitrary: pre)
  case Nil
  show ?case by simp
next
  case (Cons t ts)
  have IH: "tracksByKind_loop ts (kind_groups (pre @ [t])) = Inr (kind_groups ((pre @ [t]) @ ts))"
    using Cons.prems by (intro Cons.IH) simp
  show ?case
  proof (cases "kind t \<in> kind ` set pre")
    case True
    then show ?thesis
      using IH by (simp add: key_in_def hasOwn_kind_groups kind_groups_push)
  next
    case False
    then show ?thesis
      using IH Cons.prems by (simp add: key_in_def hasOwn_kind_groups kind_groups_new)
  qed
qed

lemma fst_push_track: "map fst (push_track k u obj) = map fst obj"
  by (induction obj) auto

lemma tracksByKind_loop_TypeError:
  "\<exists>t \<in> set ts. kind t \<in> set Object_prototype_keys \<Longrightarrow>
   \<forall>k \<in> set (map fst obj). k \<notin> set Object_prototype_keys \<Longrightarrow>
   tracksByKind_loop ts obj = Inl TypeError"
proof (induction ts arbitrary: obj)
  case Nil
  then show ?case by simp
next
  case (Cons t ts)
  show ?case
  proof (cases "kind t \<in> set Object_prototype_keys")
    case True
    with Cons.prems(2) have "\<not> hasOwn obj (kind t)" by (auto simp: hasOwn_def)
    with True show ?thesis by (simp add: key_in_def)
  next
    case False
    with Cons.prems(1) have ex: "\<exists>t \<in> set ts. kind t \<in> set Object_prototype_keys" by simp
    show ?thesis
    proof (cases "hasOwn obj (kind t)")
      case True
      have "tracksByKind_loop ts (push_track (kind t) t obj) = Inl TypeError"
        using ex Cons.prems(2) by (intro Cons.IH) (simp_all add: fst_push_track)
      with True show ?thesis by (simp add: key_in_def)
    next
      case own: False
      have "tracksByKind_loop ts (obj @ [(kind t, [t])]) = Inl TypeError"
        using ex Cons.prems(2) False by (intro Cons.IH) auto
      with own False show ?thesis by (simp add: key_in_def)
    qed
  qed
qed

lemma tracksByKind_eq:
  "tracksByKind ts =
     (if \<exists>t \<in> set ts. kind t \<in> set Object_prototype_keys then Inl TypeError
      else Inr (kind_groups ts))"
proof -
  have e: "kind_groups [] = []" by (simp add: kind_groups_def first_kinds_def)
  show ?thesis
    using tracksByKind_loop_groups [of ts "[]"] tracksByKind_loop_TypeError [of ts "[]"]
    by (auto simp: tracksByKind_def e)
qed

section \<open>Properties of \<open>Object.entries\<close> and of the manifest\<close>

lemma length_Object_entries: "length (Object_entries obj) = length obj"
  by (simp add: Object_entries_def sum_length_filter_compl)

lemma set_Object_entries: "set (Object_entries obj) = set obj"
  by (auto simp: Object_entries_def)

lemma distinct_Object_entries:
  assumes "distinct (map fst obj)"
  shows "distinct (map fst (Object_entries obj))"
proof -
  from assms have d: "distinct obj" and i: "inj_on fst (set obj)"
    by (simp_all add: distinct_map)
  have "distinct (Object_entries obj)"
    using d by (auto simp: Object_entries_def)
  with i show ?thesis
    by (simp add: distinct_map set_Object_entries)
qed

lemma Object_entries_no_index:
  "\<forall>e \<in> set obj. \<not> is_array_index (fst e) \<Longrightarrow> Object_entries obj = obj"
  by (simp add: Object_entries_def filter_empty_conv)

lemma hd_sort_key_least:
  assumes "xs \<noteq> []"
  shows "hd (sort_key f xs) \<in> set xs \<and> (\<forall>x \<in> set xs. f (hd (sort_key f xs)) \<le> f x)"
proof -
  let ?ys = "sort_key f xs"
  from assms have ne: "?ys \<noteq> []"
    by (metis length_0_conv length_sort)
  then obtain y ys where ys: "?ys = y # ys"
    by (cases ?ys) auto
  have "sorted (map f ?ys)" by simp
  with ys have le: "\<forall>x \<in> set ys. f y \<le> f x"
    by auto
  have "set xs = set ?ys" by simp
  with ys have "set xs = insert y (set ys)" by simp
  with le ys show ?thesis by simp
qed

lemma hd_Object_entries_index:
  assumes "\<exists>e \<in> set obj. is_array_index (fst e)"
  shows "hd (Object_entries obj) \<in> set obj
         \<and> is_array_index (fst (hd (Object_entries obj)))
         \<and> (\<forall>e \<in> set obj. is_array_index (fst e) \<longrightarrow>
               decimal_value (fst (hd (Object_entries obj))) \<le> decimal_value (fst e))"
proof -
  let ?xs = "filter (\<lambda>e. is_array_index (fst e)) obj"
  from assms have ne: "?xs \<noteq> []"
    by (simp add: filter_empty_conv)
  then have s: "sort_key (\<lambda>e. decimal_value (fst e)) ?xs \<noteq> []"
    by (metis length_0_conv length_sort)
  have h: "hd (Object_entries obj) = hd (sort_key (\<lambda>e. decimal_value (fst e)) ?xs)"
    using s by (simp add: Object_entries_def)
  from hd_sort_key_least [OF ne, of "\<lambda>e. decimal_value (fst e)"] show ?thesis
    unfolding h by auto
qed

lemma presenter_not_inherited: "''presenter'' \<notin> set Object_prototype_keys"
  by (simp add: Object_prototype_keys_def)

lemma length_first_kinds_pos: "ts \<noteq> [] \<Longrightarrow> first_kinds ts \<noteq> []"
  by (metis empty_is_image set_empty set_first_kinds)

lemma hd_first_kinds: "ts \<noteq> [] \<Longrightarrow> hd (first_kinds ts) = kind (hd ts)"
proof (induction ts rule: rev_induct)
  case Nil
  then show ?case by simp
next
  case (snoc t ts)
  show ?case
  proof (cases "ts = []")
    case True
    then show ?thesis by (simp add: first_kinds_def)
  next
    case False
    with snoc.IH length_first_kinds_pos [of ts] show ?thesis
      by (simp add: first_kinds_snoc)
  qed
qed

lemma buildManifest_TypeError:
  "\<exists>t \<in> set (tracks p). kind t \<in> set Object_prototype_keys \<Longrightarrow>
   buildManifest getTime label p = Inl TypeError"
  by (simp add: buildManifest_def tracksByKind_eq)

lemma buildManifest_Inr:
  assumes ok: "\<forall>t \<in> set (tracks p). kind t \<notin> set Object_prototype_keys"
  shows "\<exists>m c. buildManifest getTime label p = Inr (m, c)
     \<and> map content (streams m) = map fst (Object_entries (kind_groups (tracks p)))
     \<and> map sources (streams m)
         = map (\<lambda>e. tracksToPaellaSources (snd e) (isLive p))
             (Object_entries (kind_groups (tracks p)))
     \<and> map role (streams m)
         = (if 1 < length (first_kinds (tracks p)) \<and> ''presenter'' \<notin> kind ` set (tracks p)
            then Some ''mainAudio'' # replicate (length (first_kinds (tracks p)) - 1) None
            else replicate (length (first_kinds (tracks p))) None)
     \<and> c = (if 1 < length (first_kinds (tracks p)) \<and> ''presenter'' \<notin> kind ` set (tracks p)
            then [(warning, tracks p)] else [])
     \<and> metadata m = \<lparr> meta_title = title p, meta_duration = fixedDuration getTime p,
                       preview = previewImage p \<rparr>
     \<and> manifest_captions m = captionDescriptors label (captions p)"
proof -
  let ?obj = "kind_groups (tracks p)"
  let ?ss = "streamsOf ?obj (isLive p)"
  let ?n = "length (first_kinds (tracks p))"
  have t: "tracksByKind (tracks p) = Inr ?obj"
    using ok by (simp add: tracksByKind_eq)
  have len: "length ?ss = ?n"
    by (simp add: streamsOf_def length_Object_entries kind_groups_def)
  have pres: "key_in ''presenter'' ?obj \<longleftrightarrow> ''presenter'' \<in> kind ` set (tracks p)"
    by (simp add: key_in_def hasOwn_kind_groups presenter_not_inherited)
  have cont: "map content ?ss = map fst (Object_entries ?obj)"
    by (simp add: streamsOf_def comp_def case_prod_beta)
  have srcs: "map sources ?ss
       = map (\<lambda>e. tracksToPaellaSources (snd e) (isLive p)) (Object_entries ?obj)"
    by (simp add: streamsOf_def comp_def case_prod_beta)
  have roles: "map role ?ss = replicate ?n None"
    using len by (simp add: streamsOf_def comp_def case_prod_beta map_replicate_const
        length_Object_entries)
  show ?thesis
  proof (cases "1 < ?n \<and> ''presenter'' \<notin> kind ` set (tracks p)")
    case True
    with len obtain s0 rest where ss: "?ss = s0 # rest"
      by (cases ?ss) auto
    from roles ss have r: "map role rest = replicate (?n - 1) None"
      by (cases ?n) auto
    show ?thesis
      using True t len pres cont srcs r ss
      by (simp add: buildManifest_def Let_def)
  next
    case False
    then show ?thesis
      using t len pres cont srcs roles
      by (auto simp: buildManifest_def Let_def)
  qed
qed


lemma snd_kind_groups: "e \<in> set (kind_groups ts) \<Longrightarrow> snd e = filter (\<lambda>t. kind t = fst e) ts"
  by (auto simp: kind_groups_def)

lemma manifest_sources_from_tracks:
  assumes b: "buildManifest getTime label p = Inr (m, c)"
    and st: "st \<in> set (streams m)" and ks: "(k, ss) \<in> set (sources st)" and s: "s \<in> set ss"
  shows "\<exists>t \<in> set (tracks p). s = trackToSource t"
proof -
  have ok: "\<forall>t \<in> set (tracks p). kind t \<notin> set Object_prototype_keys"
    using b buildManifest_TypeError [of p getTime label] by auto
  from buildManifest_Inr [OF ok, of getTime label] b
  have "map sources (streams m)
         = map (\<lambda>e. tracksToPaellaSources (snd e) (isLive p))
             (Object_entries (kind_groups (tracks p)))"
    by auto
  then have eq: "set (map sources (streams m))
         = set (map (\<lambda>e. tracksToPaellaSources (snd e) (isLive p))
             (Object_entries (kind_groups (tracks p))))"
    by simp
  have "sources st \<in> set (map sources (streams m))"
    using st by simp
  then have "sources st \<in> (\<lambda>e. tracksToPaellaSources (snd e) (isLive p)) `
      set (kind_groups (tracks p))"
    unfolding eq by (simp add: set_Object_entries)
  then obtain e where e: "e \<in> set (kind_groups (tracks p))"
      and se: "sources st = tracksToPaellaSources (snd e) (isLive p)"
    by blast
  from sources_from_tracks [of k ss "snd e" "isLive p" s] ks s se
  obtain t where "t \<in> set (snd e)" and "s = trackToSource t"
    by auto
  with snd_kind_groups [OF e] show ?thesis
    by auto
qed

text \<open>
  When the builder succeeds there is exactly one stream per kind group: the content
  labels are the kinds of the tracks, each once, and a stream's sources are built from
  exactly the tracks of its kind.
\<close>

lemma buildManifest_streams:
  assumes ok: "\<forall>t \<in> set (tracks p). kind t \<notin> set Object_prototype_keys"
  shows "\<exists>m c. buildManifest getTime label p = Inr (m, c)
     \<and> distinct (map content (streams m))
     \<and> set (map content (streams m)) = kind ` set (tracks p)
     \<and> (\<forall>st \<in> set (streams m).
           sources st
             = tracksToPaellaSources (filter (\<lambda>t. kind t = content st) (tracks p)) (isLive p))"
proof -
  from buildManifest_Inr [OF ok, of getTime label] obtain m c
    where b: "buildManifest getTime label p = Inr (m, c)"
      and cont: "map content (streams m) = map fst (Object_entries (kind_groups (tracks p)))"
      and srcs: "map sources (streams m)
         = map (\<lambda>e. tracksToPaellaSources (snd e) (isLive p))
             (Object_entries (kind_groups (tracks p)))"
    by blast
  let ?es = "Object_entries (kind_groups (tracks p))"
  have d: "distinct (map content (streams m))"
    unfolding cont
    by (intro distinct_Object_entries) (simp add: fst_kind_groups distinct_first_kinds)
  have "fst ` set (kind_groups (tracks p)) = set (first_kinds (tracks p))"
    by (metis fst_kind_groups list.set_map)
  then have s: "set (map content (streams m)) = kind ` set (tracks p)"
    unfolding cont by (simp add: set_Object_entries set_first_kinds)
  have len: "length (streams m) = length ?es"
    using cont by (metis length_map)
  have "sources st = tracksToPaellaSources (filter (\<lambda>t. kind t = content st) (tracks p)) (isLive p)"
    if "st \<in> set (streams m)" for st
  proof -
    from that obtain i where i: "i < length (streams m)" and sti: "streams m ! i = st"
      by (auto simp: in_set_conv_nth)
    have c: "content st = fst (?es ! i)"
      using arg_cong [OF cont, of "\<lambda>xs. xs ! i"] i len sti by simp
    have r: "sources st = tracksToPaellaSources (snd (?es ! i)) (isLive p)"
      using arg_cong [OF srcs, of "\<lambda>xs. xs ! i"] i len sti by simp
    have "?es ! i \<in> set (kind_groups (tracks p))"
      using i len by (metis nth_mem set_Object_entries)
    from snd_kind_groups [OF this] c r show ?thesis by simp
  qed
  with b d s show ?thesis by blast
qed

text \<open>
  Claim C10: the source descriptor of every track carries the mimetype \<open>video/mp4\<close>,
  whatever the track declares (a segmented-manifest track included), and a track whose
  resolution is \<open>null\<close> gets width 0 and height 0. Every source in every bucket of every
  stream of a manifest is such a descriptor of one of the event's tracks.
\<close>

theorem source_descriptor_fixed:
  "source_mimetype (trackToSource t) = ''video/mp4''
   \<and> (resolution t = None \<longrightarrow>
        res_w (trackToSource t) = Some 0 \<and> res_h (trackToSource t) = Some 0)
   \<and> (\<forall>m c st k ss s.
        buildManifest getTime label p = Inr (m, c) \<and> st \<in> set (streams m)
        \<and> (k, ss) \<in> set (sources st) \<and> s \<in> set ss
        \<longrightarrow> source_mimetype s = ''video/mp4'' \<and> (\<exists>u \<in> set (tracks p). s = trackToSource u))"
proof -
  have a: "source_mimetype (trackToSource u) = ''video/mp4''" for u
    by (simp add: trackToSource_def Let_def)
  have b: "resolution t = None \<longrightarrow>
        res_w (trackToSource t) = Some 0 \<and> res_h (trackToSource t) = Some 0"
    by (simp add: trackToSource_def Let_def)
  show ?thesis
    using a b manifest_sources_from_tracks [of getTime label p] by metis
qed

theorem source_descriptor_fixed_witness:
  "source_mimetype (trackToSource
      \<lparr> uri = ''index.m3u8'', flavor = ''presenter/delivery'',
        mimetype = Some ''application/x-mpegURL'', resolution = None, isMaster = Some True \<rparr>)
     = ''video/mp4''
   \<and> res_w (trackToSource
      \<lparr> uri = ''index.m3u8'', flavor = ''presenter/delivery'',
        mimetype = Some ''application/x-mpegURL'', resolution = None, isMaster = Some True \<rparr>)
     = Some 0
   \<and> res_h (trackToSource
      \<lparr> uri = ''index.m3u8'', flavor = ''presenter/delivery'',
        mimetype = Some ''application/x-mpegURL'', resolution = None, isMaster = Some True \<rparr>)
     = Some 0
   \<and> (case buildManifest (\<lambda>x. None) ''Caption''
      \<lparr> tracks =
          [\<lparr> uri = ''index.m3u8'', flavor = ''presenter/delivery'',
             mimetype = Some ''application/x-mpegURL'', resolution = None,
             isMaster = Some True \<rparr>],
        title = ''Lecture'', duration = Num 10, isLive = True, captions = [],
        startTime = None, endTime = None, previewImage = None \<rparr>
    of Inr (m, c) \<Rightarrow>
         map sources (streams m)
           = [[(''hlsLive'',
                [\<lparr> src = ''index.m3u8'', source_mimetype = ''video/mp4'',
                   res_w = Some 0, res_h = Some 0 \<rparr>])]]
     | Inl e \<Rightarrow> False)"
  using source_descriptor_fixed [of
      "\<lparr> uri = ''index.m3u8'', flavor = ''presenter/delivery'',
        mimetype = Some ''application/x-mpegURL'', resolution = None, isMaster = Some True \<rparr>"
      "\<lambda>x. None" "''Caption''"
      "\<lparr> tracks =
          [\<lparr> uri = ''index.m3u8'', flavor = ''presenter/delivery'',
             mimetype = Some ''application/x-mpegURL'', resolution = None,
             isMaster = Some True \<rparr>],
        title = ''Lecture'', duration = Num 10, isLive = True, captions = [],
        startTime = None, endTime = None, previewImage = None \<rparr>"]
  by (simp add: buildManifest_def tracksByKind_def key_in_def hasOwn_def kind_def
      Object_prototype_keys_def streamsOf_def Object_entries_def is_array_index_def
      is_digit_def Let_def tracksToPaellaSources_def mp4Tracks_def hlsTracks_def
      isHlsTrack_def hlsKey_def trackToSource_def Number_of_def)


text \<open>
  Claim C2 (no event makes the core fail, the aspect-ratio computation included): for an
  event with no tracks the manifest builder succeeds with an empty stream list and logs
  nothing, but \<open>getPlayerAspectRatio\<close>, which \<open>InlinePlayer\<close> calls on the same track
  list, raises \<open>TypeError\<close>.
\<close>

theorem zero_tracks_aspect_ratio_TypeError:
  "getPlayerAspectRatio [] = Inl TypeError
   \<and> (\<exists>m. buildManifest getTime label (p\<lparr> tracks := [] \<rparr>) = Inr (m, []) \<and> streams m = [])"
  by (simp add: getPlayerAspectRatio_def buildManifest_def tracksByKind_def streamsOf_def
      Object_entries_def Let_def)

text \<open>
  Claim C7 (every track list is grouped into one stream per kind): a track whose kind is
  the name of a property inherited from \<open>Object.prototype\<close>, here \<open>constructor\<close>, makes
  the grouping loop raise \<open>TypeError\<close>, so no manifest is built. Lemmas
  \<open>buildManifest_streams\<close> and \<open>tracksToPaellaSources_keys\<close> above are the claim for all
  other track lists.
\<close>

theorem inherited_kind_TypeError:
  "buildManifest getTime label
     (p\<lparr> tracks := [\<lparr> uri = ''video.mp4'', flavor = ''constructor/source'',
                       mimetype = Some ''video/mp4'', resolution = Some [1920, 1080],
                       isMaster = None \<rparr>] \<rparr>) = Inl TypeError"
  by (simp add: buildManifest_def tracksByKind_def key_in_def hasOwn_def kind_def
      Object_prototype_keys_def)

text \<open>
  Claim C9 as stated (the stream marked as main audio is the group of the first track
  encountered) fails when a kind is an array index: \<open>Object.entries\<close> lists such a key
  first. For the flavors \<open>presentation/delivery\<close>, \<open>2/delivery\<close> the marked stream is
  \<open>2\<close>, while the first track belongs to \<open>presentation\<close>.
\<close>

theorem mainAudio_not_first_track_counterexample:
  "(case buildManifest (\<lambda>x. None) ''Caption''
      \<lparr> tracks =
          [\<lparr> uri = ''slides.mp4'', flavor = ''presentation/delivery'', mimetype = None,
             resolution = None, isMaster = None \<rparr>,
           \<lparr> uri = ''cam2.mp4'', flavor = ''2/delivery'', mimetype = None,
             resolution = None, isMaster = None \<rparr>],
        title = ''Lecture'', duration = Num 10, isLive = False, captions = [],
        startTime = None, endTime = None, previewImage = None \<rparr>
    of Inr (m, c) \<Rightarrow>
         map (\<lambda>s. (content s, role s)) (streams m)
           = [(''2'', Some ''mainAudio''), (''presentation'', None)]
     | Inl e \<Rightarrow> False)
   \<and> kind \<lparr> uri = ''slides.mp4'', flavor = ''presentation/delivery'', mimetype = None,
             resolution = None, isMaster = None \<rparr> = ''presentation''"
  by (simp add: buildManifest_def tracksByKind_def key_in_def hasOwn_def kind_def
      Object_prototype_keys_def streamsOf_def Object_entries_def is_array_index_def
      is_digit_def decimal_value_def digit_val_def Let_def)

text \<open>
  Claim C9, amended: for every event none of whose kinds is the name of a property
  inherited from \<open>Object.prototype\<close>, the manifest is built with one stream per kind
  group. If there is more than one group and none is \<open>presenter\<close>, exactly the first
  stream in \<open>Object.entries\<close> order gets the role \<open>mainAudio\<close> and one warning is logged;
  that stream is the group of the first track when no kind is an array index, and the
  group with the numerically least array-index kind otherwise. In every other case (no
  stream, one stream, or a \<open>presenter\<close> group) no stream gets a role and nothing is logged.
\<close>

theorem mainAudio_first_entry:
  assumes ok: "\<forall>t \<in> set (tracks p). kind t \<notin> set Object_prototype_keys"
  shows "\<exists>m c. buildManifest getTime label p = Inr (m, c)
     \<and> length (streams m) = length (first_kinds (tracks p))
     \<and> (if 1 < length (first_kinds (tracks p)) \<and> ''presenter'' \<notin> set (first_kinds (tracks p))
        then map role (streams m)
               = Some ''mainAudio'' # replicate (length (first_kinds (tracks p)) - 1) None
             \<and> c = [(warning, tracks p)]
             \<and> (if \<exists>k \<in> set (first_kinds (tracks p)). is_array_index k
                then content (hd (streams m)) \<in> set (first_kinds (tracks p))
                     \<and> is_array_index (content (hd (streams m)))
                     \<and> (\<forall>k \<in> set (first_kinds (tracks p)). is_array_index k \<longrightarrow>
                           decimal_value (content (hd (streams m))) \<le> decimal_value k)
                else content (hd (streams m)) = kind (hd (tracks p)))
        else map role (streams m) = replicate (length (first_kinds (tracks p))) None
             \<and> c = [])"
proof -
  let ?ks = "first_kinds (tracks p)"
  let ?obj = "kind_groups (tracks p)"
  from buildManifest_Inr [OF ok, of getTime label] obtain m c
    where b: "buildManifest getTime label p = Inr (m, c)"
      and cont: "map content (streams m) = map fst (Object_entries ?obj)"
      and roles: "map role (streams m)
         = (if 1 < length ?ks \<and> ''presenter'' \<notin> kind ` set (tracks p)
            then Some ''mainAudio'' # replicate (length ?ks - 1) None
            else replicate (length ?ks) None)"
      and c: "c = (if 1 < length ?ks \<and> ''presenter'' \<notin> kind ` set (tracks p)
            then [(warning, tracks p)] else [])"
    by blast
  have len: "length (streams m) = length ?ks"
    using arg_cong [OF cont, of length]
    by (simp add: length_Object_entries kind_groups_def)
  have keys: "fst ` set ?obj = set ?ks"
    by (metis fst_kind_groups list.set_map)
  have first: "(if \<exists>k \<in> set ?ks. is_array_index k
                then content (hd (streams m)) \<in> set ?ks
                     \<and> is_array_index (content (hd (streams m)))
                     \<and> (\<forall>k \<in> set ?ks. is_array_index k \<longrightarrow>
                           decimal_value (content (hd (streams m))) \<le> decimal_value k)
                else content (hd (streams m)) = kind (hd (tracks p)))"
    if many: "1 < length ?ks"
  proof -
    from many len have ne: "streams m \<noteq> []" by auto
    from many have tne: "tracks p \<noteq> []" by (auto simp: first_kinds_def)
    have one: "Object_entries ?obj \<noteq> []"
      using ne cont by auto
    have h: "content (hd (streams m)) = fst (hd (Object_entries ?obj))"
      using arg_cong [OF cont, of hd] ne one by (simp add: hd_map)
    show ?thesis
    proof (cases "\<exists>k \<in> set ?ks. is_array_index k")
      case True
      then have "\<exists>e \<in> set ?obj. is_array_index (fst e)"
        unfolding keys [symmetric] by auto
      from hd_Object_entries_index [OF this] True show ?thesis
        unfolding h keys [symmetric] by auto
    next
      case False
      then have "\<forall>e \<in> set ?obj. \<not> is_array_index (fst e)"
        unfolding keys [symmetric] by auto
      then have "Object_entries ?obj = ?obj"
        by (rule Object_entries_no_index)
      then have "content (hd (streams m)) = hd (map fst ?obj)"
        using h one by (simp add: hd_map)
      with False tne show ?thesis
        by (simp add: fst_kind_groups hd_first_kinds)
    qed
  qed
  show ?thesis
  proof (cases "1 < length ?ks \<and> ''presenter'' \<notin> set ?ks")
    case True
    then have cond: "1 < length ?ks \<and> ''presenter'' \<notin> kind ` set (tracks p)"
      by (simp add: set_first_kinds)
    from True have many: "1 < length ?ks" by simp
    have r: "map role (streams m) = Some ''mainAudio'' # replicate (length ?ks - 1) None"
      using roles cond by simp
    have c': "c = [(warning, tracks p)]"
      using c cond by simp
    from b len r c' first [OF many] True show ?thesis
      by (intro exI [of _ m] exI [of _ c]) simp
  next
    case False
    then have cond: "\<not> (1 < length ?ks \<and> ''presenter'' \<notin> kind ` set (tracks p))"
      by (simp add: set_first_kinds)
    have r: "map role (streams m) = replicate (length ?ks) None"
      using roles by (simp only: if_not_P [OF cond])
    have c': "c = []"
      using c by (simp only: if_not_P [OF cond])
    from b len r c' False show ?thesis
      by (intro exI [of _ m] exI [of _ c]) simp
  qed
qed

theorem mainAudio_first_entry_witness:
  "(case buildManifest (\<lambda>x. None) ''Caption''
      \<lparr> tracks =
          [\<lparr> uri = ''slides.mp4'', flavor = ''presentation/delivery'', mimetype = None,
             resolution = None, isMaster = None \<rparr>,
           \<lparr> uri = ''room.mp4'', flavor = ''room/delivery'', mimetype = None,
             resolution = None, isMaster = None \<rparr>,
           \<lparr> uri = ''slides2.mp4'', flavor = ''presentation/preview'', mimetype = None,
             resolution = None, isMaster = None \<rparr>],
        title = ''Lecture'', duration = Num 10, isLive = False, captions = [],
        startTime = None, endTime = None, previewImage = None \<rparr>
    of Inr (m, c) \<Rightarrow>
         map (\<lambda>s. (content s, role s)) (streams m)
           = [(''presentation'', Some ''mainAudio''), (''room'', None)]
         \<and> map fst c = [warning]
     | Inl e \<Rightarrow> False)
   \<and> (case buildManifest (\<lambda>x. None) ''Caption''
      \<lparr> tracks =
          [\<lparr> uri = ''slides.mp4'', flavor = ''presentation/delivery'', mimetype = None,
             resolution = None, isMaster = None \<rparr>,
           \<lparr> uri = ''cam.mp4'', flavor = ''presenter/delivery'', mimetype = None,
             resolution = None, isMaster = None \<rparr>],
        title = ''Lecture'', duration = Num 10, isLive = False, captions = [],
        startTime = None, endTime = None, previewImage = None \<rparr>
    of Inr (m, c) \<Rightarrow>
         map (\<lambda>s. (content s, role s)) (streams m)
           = [(''presentation'', None), (''presenter'', None)]
         \<and> c = []
     | Inl e \<Rightarrow> False)"
  using mainAudio_first_entry [of
      "\<lparr> tracks =
          [\<lparr> uri = ''slides.mp4'', flavor = ''presentation/delivery'', mimetype = None,
             resolution = None, isMaster = None \<rparr>,
           \<lparr> uri = ''room.mp4'', flavor = ''room/delivery'', mimetype = None,
             resolution = None, isMaster = None \<rparr>,
           \<lparr> uri = ''slides2.mp4'', flavor = ''presentation/preview'', mimetype = None,
             resolution = None, isMaster = None \<rparr>],
        title = ''Lecture'', duration = Num 10, isLive = False, captions = [],
        startTime = None, endTime = None, previewImage = None \<rparr>" "\<lambda>x. None" "''Caption''"]
    mainAudio_first_entry [of
      "\<lparr> tracks =
          [\<lparr> uri = ''slides.mp4'', flavor = ''presentation/delivery'', mimetype = None,
             resolution = None, isMaster = None \<rparr>,
           \<lparr> uri = ''cam.mp4'', flavor = ''presenter/delivery'', mimetype = None,
             resolution = None, isMaster = None \<rparr>],
        title = ''Lecture'', duration = Num 10, isLive = False, captions = [],
        startTime = None, endTime = None, previewImage = None \<rparr>" "\<lambda>x. None" "''Caption''"]
  by (simp add: buildManifest_def tracksByKind_def key_in_def hasOwn_def kind_def
      Object_prototype_keys_def streamsOf_def Object_entries_def is_array_index_def
      is_digit_def Let_def)

end
